theory Spec2Isabelle
  imports Main "HOL-Library.Word" "HOL-Library.Sublist"
begin

section \<open>JavaScript values read by the hook\<close>

text \<open>
  A JavaScript string is a sequence of 16-bit code units. The regular expressions of
  \<^verbatim>\<open>use-mobile-agent.ts\<close> carry no \<^verbatim>\<open>u\<close> flag, so they match code unit by code unit.
\<close>

type_synonym code_unit = "16 word"
type_synonym jsstring = "code_unit list"

text \<open>An ASCII literal of the source as a JavaScript string.\<close>

definition js :: "string \<Rightarrow> jsstring" where
  "js cs = map of_char cs"

text \<open>
  The properties \<^verbatim>\<open>navigator.userAgent\<close> and \<^verbatim>\<open>navigator.vendor\<close> hold a string or are
  undefined.
\<close>

datatype jsval = Undefined | JStr jsstring

text \<open>ToBoolean: undefined and the empty string are falsy.\<close>

fun truthy :: "jsval \<Rightarrow> bool" where
  "truthy Undefined = False"
| "truthy (JStr s) = (s \<noteq> [])"

text \<open>The operator \<^verbatim>\<open>a || b\<close>: the left operand when it is truthy, else the right one.\<close>

definition js_or :: "jsval \<Rightarrow> jsval \<Rightarrow> jsval" where
  "js_or a b = (if truthy a then a else b)"

text \<open>ToString, which \<^verbatim>\<open>RegExp.prototype.test\<close> applies to its argument.\<close>

fun ToString :: "jsval \<Rightarrow> jsstring" where
  "ToString Undefined = js ''undefined''"
| "ToString (JStr s) = s"

datatype js_error = ReferenceError

record Navigator =
  userAgent :: jsval
  vendor :: jsval

section \<open>The regular expressions of the source\<close>

text \<open>
  The four regular-expression literals of the source use pattern characters, the wildcard
  \<^verbatim>\<open>.\<close>, one character class \<^verbatim>\<open>[\d.]\<close> and the quantifiers \<^verbatim>\<open>*\<close> and \<^verbatim>\<open>+\<close>. A pattern is
  a sequence of terms, each an atom with its quantifier.
\<close>

datatype class_range = ClassChar code_unit | ClassDigit

datatype atom = PatternChar code_unit | Wildcard | CharClass "class_range list"

datatype quantifier = Once | ZeroOrMore | OneOrMore

type_synonym pattern = "(atom \<times> quantifier) list"

text \<open>The line terminators LF, CR, LS and PS, which the wildcard does not match.\<close>

definition is_line_terminator :: "code_unit \<Rightarrow> bool" where
  "is_line_terminator c = (c = 0x000A \<or> c = 0x000D \<or> c = 0x2028 \<or> c = 0x2029)"

text \<open>The class escape \<^verbatim>\<open>\d\<close>: the ten code units of 0 to 9.\<close>

definition is_digit :: "code_unit \<Rightarrow> bool" where
  "is_digit c = (0x0030 \<le> c \<and> c \<le> 0x0039)"

fun class_range_matches :: "class_range \<Rightarrow> code_unit \<Rightarrow> bool" where
  "class_range_matches (ClassChar d) c = (c = d)"
| "class_range_matches ClassDigit c = is_digit c"

fun atom_matches :: "atom \<Rightarrow> code_unit \<Rightarrow> bool" where
  "atom_matches (PatternChar d) c = (c = d)"
| "atom_matches Wildcard c = (\<not> is_line_terminator c)"
| "atom_matches (CharClass rs) c = list_ex (\<lambda>r. class_range_matches r c) rs"

text \<open>
  Backtracking match of a pattern at the start of the input. The quantifiers are greedy:
  one more repetition is tried before the rest of the pattern.
\<close>

fun match_here :: "pattern \<Rightarrow> jsstring \<Rightarrow> bool" where
  "match_here [] s = True"
| "match_here ((a, Once) # p) [] = False"
| "match_here ((a, Once) # p) (c # cs) = (atom_matches a c \<and> match_here p cs)"
| "match_here ((a, ZeroOrMore) # p) [] = match_here p []"
| "match_here ((a, ZeroOrMore) # p) (c # cs) =
     ((atom_matches a c \<and> match_here ((a, ZeroOrMore) # p) cs) \<or> match_here p (c # cs))"
| "match_here ((a, OneOrMore) # p) [] = False"
| "match_here ((a, OneOrMore) # p) (c # cs) =
     (atom_matches a c \<and> match_here ((a, ZeroOrMore) # p) cs)"

text \<open>
  The search of a regular expression without flags: it starts at index 0 whatever
  \<^verbatim>\<open>lastIndex\<close> is, tries every start index in turn and leaves the object unchanged.
\<close>

fun regexp_search :: "pattern \<Rightarrow> jsstring \<Rightarrow> bool" where
  "regexp_search p [] = match_here p []"
| "regexp_search p (c # cs) = (match_here p (c # cs) \<or> regexp_search p cs)"

text \<open>\<^verbatim>\<open>RegExp.prototype.test\<close>: the argument is converted to a string, then searched.\<close>

definition regexp_test :: "pattern \<Rightarrow> jsval \<Rightarrow> bool" where
  "regexp_test p v = regexp_search p (ToString v)"

text \<open>A run of pattern characters.\<close>

definition lit :: "string \<Rightarrow> pattern" where
  "lit cs = map (\<lambda>c. (PatternChar (of_char c), Once)) cs"

text \<open>\<^verbatim>\<open>/wv/\<close>\<close>

definition re_wv :: pattern where
  "re_wv = lit ''wv''"

text \<open>\<^verbatim>\<open>/Version\/[\d.]+.*Chrome/\<close>\<close>

definition re_Version_Chrome :: pattern where
  "re_Version_Chrome =
     lit ''Version/''
       @ [(CharClass [ClassDigit, ClassChar (of_char CHR ''.'')], OneOrMore), (Wildcard, ZeroOrMore)]
       @ lit ''Chrome''"

text \<open>\<^verbatim>\<open>/AppleWebKit/\<close>\<close>

definition re_AppleWebKit :: pattern where
  "re_AppleWebKit = lit ''AppleWebKit''"

text \<open>\<^verbatim>\<open>/Safari/\<close>\<close>

definition re_Safari :: pattern where
  "re_Safari = lit ''Safari''"

section \<open>The hook \<^verbatim>\<open>useMobileAgent\<close>, variant with the \<^verbatim>\<open>combined\<close> field\<close>

record WebViewStatus =
  ios :: bool
  android :: bool
  combined :: bool

text \<open>
  The two constants of the effect body, as functions of its local \<^verbatim>\<open>userAgent\<close>, which is
  whatever \<^verbatim>\<open>navigator.userAgent || navigator.vendor\<close> evaluated to.
\<close>

definition isAndroidWebView :: "jsval \<Rightarrow> bool" where
  "isAndroidWebView ua = (regexp_test re_wv ua \<or> regexp_test re_Version_Chrome ua)"

definition isIOSWebView :: "jsval \<Rightarrow> bool" where
  "isIOSWebView ua = (regexp_test re_AppleWebKit ua \<and> \<not> regexp_test re_Safari ua)"

text \<open>The object that the effect passes to \<^verbatim>\<open>setIsWebView\<close>.\<close>

definition detectWebView :: "jsval \<Rightarrow> WebViewStatus" where
  "detectWebView ua =
     \<lparr>ios = isIOSWebView ua,
      android = isAndroidWebView ua,
      combined = (isIOSWebView ua \<and> isAndroidWebView ua)\<rparr>"

text \<open>
  The effect body. The environment is the global \<^verbatim>\<open>navigator\<close>, or \<open>None\<close> where that
  identifier is not defined, in which case reading it throws. The result is the new state.
\<close>

definition mountEffect :: "Navigator option \<Rightarrow> js_error + WebViewStatus" where
  "mountEffect env =
     (case env of
        None \<Rightarrow> Inl ReferenceError
      | Some navigator \<Rightarrow>
          Inr (detectWebView (js_or (userAgent navigator) (vendor navigator))))"

text \<open>
  One instance of the hook: the cell of \<^verbatim>\<open>useState\<close>, and whether the effect registered
  with the empty dependency list still has to run.
\<close>

record 'st hook_state =
  isWebView :: 'st
  effectPending :: bool

text \<open>
  One render. On the first one (\<open>None\<close>) \<^verbatim>\<open>useState\<close> creates the cell from its argument
  and \<^verbatim>\<open>useEffect\<close> schedules the effect; later renders read the cell. The memoised
  \<^verbatim>\<open>useMemo(() => isWebView, [isWebView])\<close> is the cell's value.
\<close>

definition useMobileAgent :: "WebViewStatus hook_state option \<Rightarrow> WebViewStatus \<times> WebViewStatus hook_state" where
  "useMobileAgent prev =
     (let h = (case prev of
                 None \<Rightarrow> \<lparr>isWebView = \<lparr>ios = False, android = False, combined = False\<rparr>,
                          effectPending = True\<rparr>
               | Some h \<Rightarrow> h)
      in (isWebView h, h))"

text \<open>After a render is committed, a pending effect runs once and sets the state.\<close>

definition runEffects ::
  "(Navigator option \<Rightarrow> js_error + 'st) \<Rightarrow> Navigator option \<Rightarrow> 'st hook_state \<Rightarrow> js_error + 'st hook_state" where
  "runEffects effect env h =
     (if effectPending h
      then (case effect env of
              Inl e \<Rightarrow> Inl e
            | Inr st \<Rightarrow> Inr (h\<lparr>isWebView := st, effectPending := False\<rparr>))
      else Inr h)"

text \<open>
  The render number \<open>n\<close> of one instance, counted from 0, with the effects of each render run
  before the next one.
\<close>

fun render ::
  "('st hook_state option \<Rightarrow> 'st \<times> 'st hook_state) \<Rightarrow> (Navigator option \<Rightarrow> js_error + 'st) \<Rightarrow>
     Navigator option \<Rightarrow> nat \<Rightarrow> js_error + 'st \<times> 'st hook_state" where
  "render hook effect env 0 = Inr (hook None)"
| "render hook effect env (Suc n) =
     (case render hook effect env n of
        Inl e \<Rightarrow> Inl e
      | Inr (r, h) \<Rightarrow>
          (case runEffects effect env h of
             Inl e \<Rightarrow> Inl e
           | Inr h' \<Rightarrow> Inr (hook (Some h'))))"

section \<open>The hook \<^verbatim>\<open>useMobileAgent\<close>, variant without the \<^verbatim>\<open>combined\<close> field\<close>

record WebViewStatus_plain =
  ios_plain :: bool
  android_plain :: bool

definition isAndroidWebView_plain :: "jsval \<Rightarrow> bool" where
  "isAndroidWebView_plain ua = (regexp_test re_wv ua \<or> regexp_test re_Version_Chrome ua)"

definition isIOSWebView_plain :: "jsval \<Rightarrow> bool" where
  "isIOSWebView_plain ua = (regexp_test re_AppleWebKit ua \<and> \<not> regexp_test re_Safari ua)"

definition detectWebView_plain :: "jsval \<Rightarrow> WebViewStatus_plain" where
  "detectWebView_plain ua =
     \<lparr>ios_plain = isIOSWebView_plain ua, android_plain = isAndroidWebView_plain ua\<rparr>"

definition mountEffect_plain :: "Navigator option \<Rightarrow> js_error + WebViewStatus_plain" where
  "mountEffect_plain env =
     (case env of
        None \<Rightarrow> Inl ReferenceError
      | Some navigator \<Rightarrow>
          Inr (detectWebView_plain (js_or (userAgent navigator) (vendor navigator))))"

text \<open>This variant returns the cell's value without \<^verbatim>\<open>useMemo\<close>.\<close>

definition useMobileAgent_plain ::
  "WebViewStatus_plain hook_state option \<Rightarrow> WebViewStatus_plain \<times> WebViewStatus_plain hook_state" where
  "useMobileAgent_plain prev =
     (let h = (case prev of
                 None \<Rightarrow> \<lparr>isWebView = \<lparr>ios_plain = False, android_plain = False\<rparr>,
                          effectPending = True\<rparr>
               | Some h \<Rightarrow> h)
      in (isWebView h, h))"

section \<open>The substring and pattern vocabulary of the specification\<close>

text \<open>\<open>contains s t\<close>: the string \<open>s\<close> contains \<open>t\<close> as a contiguous substring.\<close>

definition contains :: "jsstring \<Rightarrow> jsstring \<Rightarrow> bool" where
  "contains s t = sublist t s"

text \<open>
  A dotted numeric version in the form the specification writes it,
  \<^verbatim>\<open><digits>.<digits>\<close>: a run of digits, a dot, a run of digits.
\<close>

definition dotted_numeric_version :: "jsstring \<Rightarrow> bool" where
  "dotted_numeric_version v =
     (\<exists>d1 d2. v = d1 @ js ''.'' @ d2 \<and> d1 \<noteq> [] \<and> d2 \<noteq> [] \<and> list_all is_digit d1 \<and> list_all is_digit d2)"

text \<open>
  The legacy pattern in the specification's words: \<^verbatim>\<open>Version/\<close>, then a dotted numeric
  version, then \<^verbatim>\<open>Chrome\<close> anywhere in the rest of the string.
\<close>

definition legacy_pattern_spec :: "jsstring \<Rightarrow> bool" where
  "legacy_pattern_spec s =
     (\<exists>pre ver mid post.
        s = pre @ js ''Version/'' @ ver @ mid @ js ''Chrome'' @ post \<and> dotted_numeric_version ver)"

text \<open>The same with no line terminator between the version and \<^verbatim>\<open>Chrome\<close>.\<close>

definition legacy_pattern_same_line :: "jsstring \<Rightarrow> bool" where
  "legacy_pattern_same_line s =
     (\<exists>pre ver mid post.
        s = pre @ js ''Version/'' @ ver @ mid @ js ''Chrome'' @ post \<and> dotted_numeric_version ver \<and>
        list_all (\<lambda>c. \<not> is_line_terminator c) mid)"

text \<open>
  What the second regular expression accepts: \<^verbatim>\<open>Version/\<close>, then one or more code units
  that are digits or dots, then any code units other than line terminators, then
  \<^verbatim>\<open>Chrome\<close>.
\<close>

definition legacy_signature :: "jsstring \<Rightarrow> bool" where
  "legacy_signature s =
     (\<exists>pre ver mid post.
        s = pre @ js ''Version/'' @ ver @ mid @ js ''Chrome'' @ post \<and> ver \<noteq> [] \<and>
        list_all (\<lambda>c. is_digit c \<or> c = of_char CHR ''.'') ver \<and>
        list_all (\<lambda>c. \<not> is_line_terminator c) mid)"

text \<open>
  Dropping the derived field turns a status of the first variant into one of the second,
  and likewise for the state of an instance.
\<close>

definition forget_combined :: "WebViewStatus \<Rightarrow> WebViewStatus_plain" where
  "forget_combined st = \<lparr>ios_plain = ios st, android_plain = android st\<rparr>"

definition forget_combined_state :: "WebViewStatus hook_state \<Rightarrow> WebViewStatus_plain hook_state" where
  "forget_combined_state h =
     \<lparr>isWebView = forget_combined (isWebView h), effectPending = effectPending h\<rparr>"

section \<open>Regular-expression objects and the state they carry\<close>

text \<open>
  A regular-expression object holds its pattern, the flags \<^verbatim>\<open>g\<close> and \<^verbatim>\<open>y\<close>, and the mutable
  property \<^verbatim>\<open>lastIndex\<close>: the only state a call of \<^verbatim>\<open>test\<close> reads or writes besides its
  argument.
\<close>

record RegExp =
  source :: pattern
  global :: bool
  sticky :: bool
  lastIndex :: nat

text \<open>A literal without flags, as all four of the source are, evaluates to a new object.\<close>

definition RegExp_literal :: "pattern \<Rightarrow> RegExp" where
  "RegExp_literal p = \<lparr>source = p, global = False, sticky = False, lastIndex = 0\<rparr>"

text \<open>
  The backtracking match again, returning how many code units the first successful
  alternative consumed.
\<close>

fun match_end :: "pattern \<Rightarrow> jsstring \<Rightarrow> nat option" where
  "match_end [] s = Some 0"
| "match_end ((a, Once) # p) [] = None"
| "match_end ((a, Once) # p) (c # cs) =
     (if atom_matches a c then map_option Suc (match_end p cs) else None)"
| "match_end ((a, ZeroOrMore) # p) [] = match_end p []"
| "match_end ((a, ZeroOrMore) # p) (c # cs) =
     (case (if atom_matches a c then map_option Suc (match_end ((a, ZeroOrMore) # p) cs) else None) of
        Some k \<Rightarrow> Some k
      | None \<Rightarrow> match_end p (c # cs))"
| "match_end ((a, OneOrMore) # p) [] = None"
| "match_end ((a, OneOrMore) # p) (c # cs) =
     (if atom_matches a c then map_option Suc (match_end ((a, ZeroOrMore) # p) cs) else None)"

text \<open>
  The loop of RegExpBuiltinExec on the rest of the input from index \<open>i\<close>: the end index of
  the first match at \<open>i\<close> or, unless the expression is sticky, at a later index.
\<close>

fun exec_at :: "pattern \<Rightarrow> bool \<Rightarrow> jsstring \<Rightarrow> nat \<Rightarrow> nat option" where
  "exec_at p y [] i = map_option (\<lambda>k. i + k) (match_end p [])"
| "exec_at p y (c # cs) i =
     (case match_end p (c # cs) of
        Some k \<Rightarrow> Some (i + k)
      | None \<Rightarrow> if y then None else exec_at p y cs (Suc i))"

text \<open>
  \<^verbatim>\<open>RegExp.prototype.test\<close> on an object: the answer and the object as the call leaves it.
  Without \<^verbatim>\<open>g\<close> and \<^verbatim>\<open>y\<close> the search starts at 0 and \<^verbatim>\<open>lastIndex\<close> is not written; with
  either flag it starts at \<^verbatim>\<open>lastIndex\<close>, which is then set to the end of the match, or to
  0 when there is none.
\<close>

definition RegExp_test :: "RegExp \<Rightarrow> jsval \<Rightarrow> bool \<times> RegExp" where
  "RegExp_test R v =
     (let S = ToString v;
          stateful = (global R \<or> sticky R);
          i = (if stateful then lastIndex R else 0)
      in if length S < i then (False, if stateful then R\<lparr>lastIndex := 0\<rparr> else R)
         else (case exec_at (source R) (sticky R) (drop i S) i of
                 None \<Rightarrow> (False, if stateful then R\<lparr>lastIndex := 0\<rparr> else R)
               | Some e \<Rightarrow> (True, if stateful then R\<lparr>lastIndex := e\<rparr> else R)))"

text \<open>
  The constants of the effect body with their objects made explicit: each literal is
  evaluated when control reaches it (\<^verbatim>\<open>||\<close> and \<^verbatim>\<open>&&\<close> skip their right operand), and the
  objects created are returned in the state the calls left them in.
\<close>

definition isAndroidWebView_exec :: "jsval \<Rightarrow> bool \<times> RegExp list" where
  "isAndroidWebView_exec ua =
     (let (b1, r1) = RegExp_test (RegExp_literal re_wv) ua
      in if b1 then (True, [r1])
         else (let (b2, r2) = RegExp_test (RegExp_literal re_Version_Chrome) ua
               in (b2, [r1, r2])))"

definition isIOSWebView_exec :: "jsval \<Rightarrow> bool \<times> RegExp list" where
  "isIOSWebView_exec ua =
     (let (b1, r1) = RegExp_test (RegExp_literal re_AppleWebKit) ua
      in if \<not> b1 then (False, [r1])
         else (let (b2, r2) = RegExp_test (RegExp_literal re_Safari) ua
               in (\<not> b2, [r1, r2])))"

definition detectWebView_exec :: "jsval \<Rightarrow> WebViewStatus \<times> RegExp list" where
  "detectWebView_exec ua =
     (let (isAndroid, ra) = isAndroidWebView_exec ua;
          (isIOS, ri) = isIOSWebView_exec ua
      in (\<lparr>ios = isIOS, android = isAndroid, combined = (isIOS \<and> isAndroid)\<rparr>, ra @ ri))"

section \<open>What the matcher accepts\<close>

lemma regexp_search_iff:
  "regexp_search p s \<longleftrightarrow> (\<exists>pre suf. s = pre @ suf \<and> match_here p suf)"
proof (induction s)
  case Nil
  then show ?case by simp
next
  case (Cons c cs)
  show ?case
  proof
    assume "regexp_search p (c # cs)"
    then consider "match_here p (c # cs)" | "regexp_search p cs" by auto
    then show "\<exists>pre suf. c # cs = pre @ suf \<and> match_here p suf"
    proof cases
      case 1
      then have "c # cs = [] @ (c # cs) \<and> match_here p (c # cs)" by simp
      then show ?thesis by blast
    next
      case 2
      with Cons.IH obtain pre suf where "cs = pre @ suf" "match_here p suf" by blast
      then have "c # cs = (c # pre) @ suf \<and> match_here p suf" by simp
      then show ?thesis by blast
    qed
  next
    assume "\<exists>pre suf. c # cs = pre @ suf \<and> match_here p suf"
    then obtain pre suf where d: "c # cs = pre @ suf" and m: "match_here p suf" by blast
    show "regexp_search p (c # cs)"
    proof (cases pre)
      case Nil
      with d have "suf = c # cs" by simp
      with m show ?thesis by simp
    next
      case (Cons x pre')
      with d have "cs = pre' @ suf" by simp
      with m Cons.IH show ?thesis by auto
    qed
  qed
qed

lemma match_here_lit:
  "match_here (lit l @ p) s \<longleftrightarrow> (\<exists>rest. s = js l @ rest \<and> match_here p rest)"
proof (induction l arbitrary: s)
  case Nil
  then show ?case by (simp add: lit_def js_def)
next
  case (Cons x xs)
  have IH: "\<And>t. match_here (lit xs @ p) t \<longleftrightarrow> (\<exists>rest. t = js xs @ rest \<and> match_here p rest)"
    using Cons.IH .
  show ?case
  proof (cases s)
    case Nil
    then show ?thesis by (simp add: lit_def js_def)
  next
    case (Cons c cs)
    have "match_here (lit (x # xs) @ p) (c # cs) \<longleftrightarrow> c = of_char x \<and> match_here (lit xs @ p) cs"
      by (simp add: lit_def)
    also have "\<dots> \<longleftrightarrow> c = of_char x \<and> (\<exists>rest. cs = js xs @ rest \<and> match_here p rest)"
      using IH by simp
    also have "\<dots> \<longleftrightarrow> (\<exists>rest. c # cs = js (x # xs) @ rest \<and> match_here p rest)"
      by (auto simp: js_def)
    finally show ?thesis using Cons by simp
  qed
qed

lemma match_here_star:
  "match_here ((a, ZeroOrMore) # p) s \<longleftrightarrow>
     (\<exists>xs rest. s = xs @ rest \<and> list_all (atom_matches a) xs \<and> match_here p rest)"
proof (induction s)
  case Nil
  then show ?case by simp
next
  case (Cons c cs)
  show ?case
  proof
    assume "match_here ((a, ZeroOrMore) # p) (c # cs)"
    then consider "atom_matches a c" "match_here ((a, ZeroOrMore) # p) cs" | "match_here p (c # cs)"
      by auto
    then show "\<exists>xs rest. c # cs = xs @ rest \<and> list_all (atom_matches a) xs \<and> match_here p rest"
    proof cases
      case 1
      with Cons.IH obtain xs rest where "cs = xs @ rest" "list_all (atom_matches a) xs" "match_here p rest"
        by blast
      with 1 have "c # cs = (c # xs) @ rest \<and> list_all (atom_matches a) (c # xs) \<and> match_here p rest"
        by simp
      then show ?thesis by blast
    next
      case 2
      then have "c # cs = [] @ (c # cs) \<and> list_all (atom_matches a) [] \<and> match_here p (c # cs)"
        by simp
      then show ?thesis by blast
    qed
  next
    assume "\<exists>xs rest. c # cs = xs @ rest \<and> list_all (atom_matches a) xs \<and> match_here p rest"
    then obtain xs rest where d: "c # cs = xs @ rest" and a: "list_all (atom_matches a) xs"
      and m: "match_here p rest" by blast
    show "match_here ((a, ZeroOrMore) # p) (c # cs)"
    proof (cases xs)
      case Nil
      with d have "rest = c # cs" by simp
      with m show ?thesis by simp
    next
      case (Cons y ys)
      with d a have "y = c" "cs = ys @ rest" "atom_matches a c" "list_all (atom_matches a) ys"
        by simp_all
      with m Cons.IH show ?thesis by auto
    qed
  qed
qed

lemma match_here_plus:
  "match_here ((a, OneOrMore) # p) s \<longleftrightarrow>
     (\<exists>xs rest. s = xs @ rest \<and> xs \<noteq> [] \<and> list_all (atom_matches a) xs \<and> match_here p rest)"
proof (cases s)
  case Nil
  then show ?thesis by simp
next
  case (Cons c cs)
  show ?thesis
  proof
    assume "match_here ((a, OneOrMore) # p) s"
    with Cons have c: "atom_matches a c" and "match_here ((a, ZeroOrMore) # p) cs" by simp_all
    then obtain xs rest where "cs = xs @ rest" "list_all (atom_matches a) xs" "match_here p rest"
      using match_here_star by blast
    with c Cons have "s = (c # xs) @ rest \<and> c # xs \<noteq> [] \<and> list_all (atom_matches a) (c # xs) \<and> match_here p rest"
      by simp
    then show "\<exists>xs rest. s = xs @ rest \<and> xs \<noteq> [] \<and> list_all (atom_matches a) xs \<and> match_here p rest"
      by blast
  next
    assume "\<exists>xs rest. s = xs @ rest \<and> xs \<noteq> [] \<and> list_all (atom_matches a) xs \<and> match_here p rest"
    then obtain xs rest where d: "s = xs @ rest" and n: "xs \<noteq> []" and a: "list_all (atom_matches a) xs"
      and m: "match_here p rest" by blast
    from n obtain y ys where xs: "xs = y # ys" by (cases xs) auto
    with d Cons a have "y = c" "cs = ys @ rest" "atom_matches a c" "list_all (atom_matches a) ys"
      by simp_all
    with m have "atom_matches a c" "match_here ((a, ZeroOrMore) # p) cs"
      using match_here_star by blast+
    with Cons show "match_here ((a, OneOrMore) # p) s" by simp
  qed
qed

lemma regexp_search_lit: "regexp_search (lit l) s \<longleftrightarrow> contains s (js l)"
proof -
  have "regexp_search (lit l @ []) s \<longleftrightarrow> (\<exists>pre suf. s = pre @ suf \<and> (\<exists>rest. suf = js l @ rest))"
    unfolding regexp_search_iff match_here_lit by simp
  then show ?thesis by (auto simp: contains_def sublist_def)
qed

lemma regexp_search_Version_Chrome: "regexp_search re_Version_Chrome s \<longleftrightarrow> legacy_signature s"
proof -
  let ?cls = "CharClass [ClassDigit, ClassChar (of_char CHR ''.'')]"
  have cls: "atom_matches ?cls = (\<lambda>c. is_digit c \<or> c = of_char CHR ''.'')"
    by (rule ext) simp
  have wild: "atom_matches Wildcard = (\<lambda>c. \<not> is_line_terminator c)"
    by (rule ext) simp
  have chrome: "match_here (lit ''Chrome'') t \<longleftrightarrow> (\<exists>post. t = js ''Chrome'' @ post)" for t
    using match_here_lit [of "''Chrome''" "[]" t] by simp
  have "match_here re_Version_Chrome t \<longleftrightarrow>
        (\<exists>ver mid post. t = js ''Version/'' @ ver @ mid @ js ''Chrome'' @ post \<and> ver \<noteq> [] \<and>
           list_all (\<lambda>c. is_digit c \<or> c = of_char CHR ''.'') ver \<and>
           list_all (\<lambda>c. \<not> is_line_terminator c) mid)" for t
    unfolding re_Version_Chrome_def match_here_lit append_Cons append_Nil match_here_plus match_here_star
      chrome cls wild
    by blast
  then show ?thesis
    unfolding regexp_search_iff legacy_signature_def by blast
qed

section \<open>The two heuristics on strings\<close>

lemma isAndroidWebView_string:
  "isAndroidWebView (JStr s) \<longleftrightarrow> contains s (js ''wv'') \<or> legacy_signature s"
  by (simp add: isAndroidWebView_def regexp_test_def re_wv_def regexp_search_lit
      regexp_search_Version_Chrome)

lemma isIOSWebView_string:
  "isIOSWebView (JStr s) \<longleftrightarrow> contains s (js ''AppleWebKit'') \<and> \<not> contains s (js ''Safari'')"
  by (simp add: isIOSWebView_def regexp_test_def re_AppleWebKit_def re_Safari_def regexp_search_lit)

lemma legacy_pattern_spec_digit:
  assumes "legacy_pattern_spec s"
  shows "list_ex is_digit s"
proof -
  from assms obtain pre ver mid post d1 d2 where
    s: "s = pre @ js ''Version/'' @ ver @ mid @ js ''Chrome'' @ post" and
    v: "ver = d1 @ js ''.'' @ d2" and d: "d1 \<noteq> []" "list_all is_digit d1"
    unfolding legacy_pattern_spec_def dotted_numeric_version_def by blast
  from d obtain x where "x \<in> set d1" "is_digit x"
    by (cases d1) auto
  with s v show ?thesis by (auto simp: list_ex_iff)
qed

lemma same_line_signature:
  assumes "legacy_pattern_same_line s"
  shows "legacy_signature s"
proof -
  from assms obtain pre ver mid post d1 d2 where
    s: "s = pre @ js ''Version/'' @ ver @ mid @ js ''Chrome'' @ post" and
    m: "list_all (\<lambda>c. \<not> is_line_terminator c) mid" and
    v: "ver = d1 @ js ''.'' @ d2" and d: "d1 \<noteq> []" "list_all is_digit d1" "list_all is_digit d2"
    unfolding legacy_pattern_same_line_def dotted_numeric_version_def by blast
  from v d have "ver \<noteq> []" "list_all (\<lambda>c. is_digit c \<or> c = of_char CHR ''.'') ver"
    by (auto simp: list_all_iff js_def)
  with s m show ?thesis unfolding legacy_signature_def by blast
qed

lemma dotted_numeric_versionI:
  assumes "d1 \<noteq> []" "d2 \<noteq> []" "list_all is_digit d1" "list_all is_digit d2"
  shows "dotted_numeric_version (d1 @ js ''.'' @ d2)"
  using assms unfolding dotted_numeric_version_def by blast

section \<open>The claims about the detector\<close>

text \<open>
  C1 (as amended). For every user-agent string \<open>s\<close>, the \<open>android\<close> flag is true if and only
  if \<open>s\<close> contains \<^verbatim>\<open>wv\<close>, or \<open>s\<close> contains \<^verbatim>\<open>Version/\<close> followed by one or more code units
  that are digits or dots, followed on the same line (no line terminator in between) by
  \<^verbatim>\<open>Chrome\<close>.
\<close>

theorem C1_android_iff_signature:
  "android (detectWebView (JStr s)) \<longleftrightarrow> contains s (js ''wv'') \<or> legacy_signature s"
proof -
  have "android (detectWebView (JStr s)) \<longleftrightarrow> isAndroidWebView (JStr s)"
    by (simp add: detectWebView_def)
  also have "\<dots> \<longleftrightarrow> regexp_search re_wv s \<or> regexp_search re_Version_Chrome s"
    by (simp add: isAndroidWebView_def regexp_test_def)
  also have "\<dots> \<longleftrightarrow> contains s (js ''wv'') \<or> legacy_signature s"
    by (simp add: re_wv_def regexp_search_lit regexp_search_Version_Chrome)
  finally show ?thesis .
qed

text \<open>
  An instance: a string without \<^verbatim>\<open>wv\<close> whose flag is set, hence with the signature.
\<close>

theorem C1_android_iff_signature_witness:
  "android (detectWebView (JStr (js ''Version/4.0 Chrome/66.0'')))
   \<and> \<not> contains (js ''Version/4.0 Chrome/66.0'') (js ''wv'')
   \<and> legacy_signature (js ''Version/4.0 Chrome/66.0'')"
proof -
  have a: "android (detectWebView (JStr (js ''Version/4.0 Chrome/66.0'')))"
    by code_simp
  have b: "\<not> contains (js ''Version/4.0 Chrome/66.0'') (js ''wv'')"
    by code_simp
  from a b C1_android_iff_signature [of "js ''Version/4.0 Chrome/66.0''"]
  show ?thesis by blast
qed

text \<open>
  C1 as the specification words it fails in both directions. With a line feed between a
  dotted numeric version and \<^verbatim>\<open>Chrome\<close> the string matches the specification's pattern and
  the flag is false, since the wildcard stops at a line terminator. With a lone dot after
  \<^verbatim>\<open>Version/\<close> there is no numeric version and no \<^verbatim>\<open>wv\<close>, and the flag is true, since the
  class \<^verbatim>\<open>[\d.]\<close> accepts a dot on its own.
\<close>

theorem C1_counterexample:
  "\<not> (android (detectWebView (JStr (js ''Version/1.0'' @ [0x000A] @ js ''Chrome'')))
        \<longleftrightarrow> contains (js ''Version/1.0'' @ [0x000A] @ js ''Chrome'') (js ''wv'')
             \<or> legacy_pattern_spec (js ''Version/1.0'' @ [0x000A] @ js ''Chrome''))
   \<and> \<not> (android (detectWebView (JStr (js ''Version/.Chrome'')))
        \<longleftrightarrow> contains (js ''Version/.Chrome'') (js ''wv'')
             \<or> legacy_pattern_spec (js ''Version/.Chrome''))"
proof -
  have v: "dotted_numeric_version (js ''1.0'')"
    using dotted_numeric_versionI [of "js ''1''" "js ''0''"] by (simp add: js_def is_digit_def)
  have "js ''Version/1.0'' @ [0x000A] @ js ''Chrome''
          = [] @ js ''Version/'' @ js ''1.0'' @ [0x000A] @ js ''Chrome'' @ []"
    by (simp add: js_def)
  with v have p: "legacy_pattern_spec (js ''Version/1.0'' @ [0x000A] @ js ''Chrome'')"
    unfolding legacy_pattern_spec_def by blast
  have n: "\<not> android (detectWebView (JStr (js ''Version/1.0'' @ [0x000A] @ js ''Chrome'')))"
    by code_simp
  have a: "android (detectWebView (JStr (js ''Version/.Chrome'')))"
    by code_simp
  have w: "\<not> contains (js ''Version/.Chrome'') (js ''wv'')"
    by code_simp
  have "\<not> list_ex is_digit (js ''Version/.Chrome'')"
    by code_simp
  then have d: "\<not> legacy_pattern_spec (js ''Version/.Chrome'')"
    using legacy_pattern_spec_digit by blast
  from p n a w d show ?thesis by blast
qed

text \<open>
  C2. For every user-agent string \<open>s\<close>, the \<open>ios\<close> flag is true if and only if \<open>s\<close> contains
  \<^verbatim>\<open>AppleWebKit\<close> and does not contain \<^verbatim>\<open>Safari\<close>; so every string containing both, in
  any order, has \<open>ios\<close> false, and so has the fused token \<^verbatim>\<open>AppleWebKitSafari\<close>.
\<close>

theorem C2_ios_iff:
  "(ios (detectWebView (JStr s)) \<longleftrightarrow>
      contains s (js ''AppleWebKit'') \<and> \<not> contains s (js ''Safari''))
   \<and> (contains s (js ''AppleWebKit'') \<and> contains s (js ''Safari'') \<longrightarrow>
      \<not> ios (detectWebView (JStr s)))
   \<and> \<not> ios (detectWebView (JStr (js ''AppleWebKitSafari'')))"
proof -
  have "\<not> ios (detectWebView (JStr (js ''AppleWebKitSafari'')))"
    by code_simp
  then show ?thesis
    by (simp add: detectWebView_def isIOSWebView_string)
qed

text \<open>
  Two instances: \<^verbatim>\<open>Safari\<close> before \<^verbatim>\<open>AppleWebKit\<close> gives false, \<^verbatim>\<open>AppleWebKit\<close> alone gives
  true.
\<close>

theorem C2_ios_iff_witness:
  "contains (js ''Safari/604.1 AppleWebKit/605.1.15'') (js ''AppleWebKit'')
   \<and> contains (js ''Safari/604.1 AppleWebKit/605.1.15'') (js ''Safari'')
   \<and> \<not> ios (detectWebView (JStr (js ''Safari/604.1 AppleWebKit/605.1.15'')))
   \<and> contains (js ''AppleWebKit/605.1.15 Mobile/15E148'') (js ''AppleWebKit'')
   \<and> \<not> contains (js ''AppleWebKit/605.1.15 Mobile/15E148'') (js ''Safari'')
   \<and> ios (detectWebView (JStr (js ''AppleWebKit/605.1.15 Mobile/15E148'')))"
proof -
  have a: "contains (js ''Safari/604.1 AppleWebKit/605.1.15'') (js ''AppleWebKit'')"
    by code_simp
  have b: "contains (js ''Safari/604.1 AppleWebKit/605.1.15'') (js ''Safari'')"
    by code_simp
  have c: "contains (js ''AppleWebKit/605.1.15 Mobile/15E148'') (js ''AppleWebKit'')"
    by code_simp
  have d: "\<not> contains (js ''AppleWebKit/605.1.15 Mobile/15E148'') (js ''Safari'')"
    by code_simp
  from a b c d C2_ios_iff [of "js ''Safari/604.1 AppleWebKit/605.1.15''"]
    C2_ios_iff [of "js ''AppleWebKit/605.1.15 Mobile/15E148''"]
  show ?thesis by blast
qed

text \<open>
  C5 (as amended). Every string containing \<^verbatim>\<open>wv\<close> has \<open>android\<close> true; and every string
  containing \<^verbatim>\<open>Version/<digits>.<digits>\<close> with \<^verbatim>\<open>Chrome\<close> after the version token and no
  line terminator between the two has \<open>android\<close> true.
\<close>

theorem C5_android_sufficient:
  "(contains s (js ''wv'') \<longrightarrow> android (detectWebView (JStr s)))
   \<and> (legacy_pattern_same_line s \<longrightarrow> android (detectWebView (JStr s)))"
  using same_line_signature [of s]
  by (auto simp: detectWebView_def isAndroidWebView_string)

text \<open>An instance of each half.\<close>

theorem C5_android_sufficient_witness:
  "contains (js ''Android 10; wv'') (js ''wv'')
   \<and> android (detectWebView (JStr (js ''Android 10; wv'')))
   \<and> legacy_pattern_same_line (js ''Version/4.0 Chrome/66.0'')
   \<and> android (detectWebView (JStr (js ''Version/4.0 Chrome/66.0'')))"
proof -
  have a: "contains (js ''Android 10; wv'') (js ''wv'')"
    by code_simp
  have v: "dotted_numeric_version (js ''4.0'')"
    using dotted_numeric_versionI [of "js ''4''" "js ''0''"] by (simp add: js_def is_digit_def)
  have "js ''Version/4.0 Chrome/66.0'' = [] @ js ''Version/'' @ js ''4.0'' @ js '' '' @ js ''Chrome'' @ js ''/66.0''"
    by (simp add: js_def)
  moreover have "list_all (\<lambda>c. \<not> is_line_terminator c) (js '' '')"
    by code_simp
  ultimately have b: "legacy_pattern_same_line (js ''Version/4.0 Chrome/66.0'')"
    using v unfolding legacy_pattern_same_line_def by blast
  from a b C5_android_sufficient [of "js ''Android 10; wv''"]
    C5_android_sufficient [of "js ''Version/4.0 Chrome/66.0''"]
  show ?thesis by blast
qed

text \<open>
  C5 as the specification words it, with \<^verbatim>\<open>Chrome\<close> anywhere after the version token,
  fails when a line break separates the two: the pattern of the specification matches and
  the flag is false.
\<close>

theorem C5_counterexample:
  "\<not> (legacy_pattern_spec (js ''Version/4.0 Mobile'' @ [0x000D, 0x000A] @ js ''Chrome/66.0'')
        \<longrightarrow> android (detectWebView (JStr (js ''Version/4.0 Mobile'' @ [0x000D, 0x000A] @ js ''Chrome/66.0''))))"
proof -
  have v: "dotted_numeric_version (js ''4.0'')"
    using dotted_numeric_versionI [of "js ''4''" "js ''0''"] by (simp add: js_def is_digit_def)
  have "js ''Version/4.0 Mobile'' @ [0x000D, 0x000A] @ js ''Chrome/66.0''
          = [] @ js ''Version/'' @ js ''4.0'' @ (js '' Mobile'' @ [0x000D, 0x000A]) @ js ''Chrome'' @ js ''/66.0''"
    by (simp add: js_def)
  with v have p: "legacy_pattern_spec (js ''Version/4.0 Mobile'' @ [0x000D, 0x000A] @ js ''Chrome/66.0'')"
    unfolding legacy_pattern_spec_def by blast
  have n: "\<not> android (detectWebView (JStr (js ''Version/4.0 Mobile'' @ [0x000D, 0x000A] @ js ''Chrome/66.0'')))"
    by code_simp
  from p n show ?thesis by blast
qed

text \<open>
  The detection reads its argument only through the string that \<^verbatim>\<open>test\<close> converts it to.
\<close>

lemma detectWebView_ToString: "detectWebView ua = detectWebView (JStr (ToString ua))"
  by (simp add: detectWebView_def isAndroidWebView_def isIOSWebView_def regexp_test_def)

lemma detectWebView_plain_ToString: "detectWebView_plain ua = detectWebView_plain (JStr (ToString ua))"
  by (simp add: detectWebView_plain_def isAndroidWebView_plain_def isIOSWebView_plain_def regexp_test_def)

lemma detectWebView_Undefined:
  "detectWebView Undefined = \<lparr>ios = False, android = False, combined = False\<rparr>"
  by code_simp

lemma detectWebView_empty:
  "detectWebView (JStr []) = \<lparr>ios = False, android = False, combined = False\<rparr>"
  by code_simp

lemma detectWebView_plain_Undefined:
  "detectWebView_plain Undefined = \<lparr>ios_plain = False, android_plain = False\<rparr>"
  by code_simp

lemma detectWebView_plain_empty:
  "detectWebView_plain (JStr []) = \<lparr>ios_plain = False, android_plain = False\<rparr>"
  by code_simp

lemma js_or_unavailable:
  assumes "ua = Undefined \<or> ua = JStr []"
  shows "js_or ua v = v"
  using assms by (auto simp: js_or_def)

text \<open>
  C3. When \<^verbatim>\<open>navigator.userAgent\<close> is undefined or empty and \<^verbatim>\<open>navigator.vendor\<close> is undefined
  or empty, the effect throws nothing and the status it sets is all false, in both
  variants (with \<open>combined\<close> false in the variant that has it).
\<close>

theorem C3_unavailable_all_false:
  assumes "ua = Undefined \<or> ua = JStr []" and "v = Undefined \<or> v = JStr []"
  shows "mountEffect (Some \<lparr>userAgent = ua, vendor = v\<rparr>)
           = Inr \<lparr>ios = False, android = False, combined = False\<rparr>
         \<and> mountEffect_plain (Some \<lparr>userAgent = ua, vendor = v\<rparr>)
           = Inr \<lparr>ios_plain = False, android_plain = False\<rparr>"
proof -
  from assms(1) have "js_or ua v = v" by (rule js_or_unavailable)
  moreover from assms(2) have "detectWebView v = \<lparr>ios = False, android = False, combined = False\<rparr>"
    using detectWebView_Undefined detectWebView_empty by blast
  moreover from assms(2) have "detectWebView_plain v = \<lparr>ios_plain = False, android_plain = False\<rparr>"
    using detectWebView_plain_Undefined detectWebView_plain_empty by blast
  ultimately show ?thesis by (simp add: mountEffect_def mountEffect_plain_def)
qed

text \<open>
  Three of the four combinations, each through the theorem.
\<close>

theorem C3_unavailable_all_false_witness:
  "mountEffect (Some \<lparr>userAgent = Undefined, vendor = Undefined\<rparr>)
     = Inr \<lparr>ios = False, android = False, combined = False\<rparr>
   \<and> mountEffect_plain (Some \<lparr>userAgent = JStr [], vendor = Undefined\<rparr>)
     = Inr \<lparr>ios_plain = False, android_plain = False\<rparr>
   \<and> mountEffect (Some \<lparr>userAgent = JStr [], vendor = JStr []\<rparr>)
     = Inr \<lparr>ios = False, android = False, combined = False\<rparr>"
  using C3_unavailable_all_false [of Undefined Undefined]
    C3_unavailable_all_false [of "JStr []" Undefined]
    C3_unavailable_all_false [of "JStr []" "JStr []"]
  by simp

text \<open>
  Every render after the first returns what the effect stored, and the effect does not
  run again; where \<^verbatim>\<open>navigator\<close> is not defined the effect throws.
\<close>

lemma render_useMobileAgent_Suc:
  "render useMobileAgent mountEffect (Some nav) (Suc n)
     = Inr (detectWebView (js_or (userAgent nav) (vendor nav)),
            \<lparr>isWebView = detectWebView (js_or (userAgent nav) (vendor nav)), effectPending = False\<rparr>)"
  by (induction n) (simp_all add: useMobileAgent_def runEffects_def mountEffect_def)

lemma render_useMobileAgent_plain_Suc:
  "render useMobileAgent_plain mountEffect_plain (Some nav) (Suc n)
     = Inr (detectWebView_plain (js_or (userAgent nav) (vendor nav)),
            \<lparr>isWebView = detectWebView_plain (js_or (userAgent nav) (vendor nav)), effectPending = False\<rparr>)"
  by (induction n) (simp_all add: useMobileAgent_plain_def runEffects_def mountEffect_plain_def)

lemma render_useMobileAgent_None: "render useMobileAgent mountEffect None (Suc n) = Inl ReferenceError"
  by (induction n) (simp_all add: useMobileAgent_def runEffects_def mountEffect_def)

lemma render_useMobileAgent_plain_None:
  "render useMobileAgent_plain mountEffect_plain None (Suc n) = Inl ReferenceError"
  by (induction n) (simp_all add: useMobileAgent_plain_def runEffects_def mountEffect_plain_def)

text \<open>
  C4. In the variant with the field, \<open>combined\<close> is the conjunction of \<open>ios\<close> and
  \<open>android\<close> of the same status: for the status that the detection builds from any input,
  and for the status that any render of the hook returns.
\<close>

theorem C4_combined_is_and:
  "combined (detectWebView ua) = (ios (detectWebView ua) \<and> android (detectWebView ua))
   \<and> (render useMobileAgent mountEffect env n = Inr (st, h) \<longrightarrow>
        combined st = (ios st \<and> android st))"
proof -
  have d: "combined (detectWebView x) = (ios (detectWebView x) \<and> android (detectWebView x))" for x
    by (simp add: detectWebView_def)
  have "combined st = (ios st \<and> android st)" if r: "render useMobileAgent mountEffect env n = Inr (st, h)"
  proof (cases n)
    case 0
    with r show ?thesis by (auto simp: useMobileAgent_def)
  next
    case (Suc m)
    show ?thesis
    proof (cases env)
      case None
      with r Suc show ?thesis by (simp add: render_useMobileAgent_None del: render.simps)
    next
      case (Some nav)
      with r Suc have "st = detectWebView (js_or (userAgent nav) (vendor nav))"
        by (simp add: render_useMobileAgent_Suc del: render.simps)
      with d show ?thesis by simp
    qed
  qed
  with d show ?thesis by blast
qed

text \<open>
  An instance where both heuristics fire: the render after the effect returns a status
  with all three fields true.
\<close>

theorem C4_combined_is_and_witness:
  "render useMobileAgent mountEffect
      (Some \<lparr>userAgent = JStr (js ''AppleWebKit wv''), vendor = Undefined\<rparr>) 1
     = Inr (detectWebView (JStr (js ''AppleWebKit wv'')),
            \<lparr>isWebView = detectWebView (JStr (js ''AppleWebKit wv'')), effectPending = False\<rparr>)
   \<and> ios (detectWebView (JStr (js ''AppleWebKit wv'')))
   \<and> android (detectWebView (JStr (js ''AppleWebKit wv'')))
   \<and> combined (detectWebView (JStr (js ''AppleWebKit wv'')))"
proof -
  let ?env = "Some \<lparr>userAgent = JStr (js ''AppleWebKit wv''), vendor = Undefined\<rparr>"
  let ?st = "detectWebView (JStr (js ''AppleWebKit wv''))"
  have r: "render useMobileAgent mountEffect ?env 1 = Inr (?st, \<lparr>isWebView = ?st, effectPending = False\<rparr>)"
    by (simp add: useMobileAgent_def runEffects_def mountEffect_def js_or_def js_def)
  have i: "ios ?st" by code_simp
  have a: "android ?st" by code_simp
  from r i a C4_combined_is_and [of "JStr (js ''AppleWebKit wv'')" ?env 1 ?st "\<lparr>isWebView = ?st, effectPending = False\<rparr>"]
  show ?thesis by blast
qed

text \<open>
  C6. The four concrete scenarios: the Android WebView user agent ending in \<^verbatim>\<open>wv\<close> gives
  \<open>ios\<close> false and \<open>android\<close> true; the iOS user agent with \<^verbatim>\<open>AppleWebKit\<close> and no
  \<^verbatim>\<open>Safari\<close> gives \<open>ios\<close> true and \<open>android\<close> false; iOS Safari, with \<^verbatim>\<open>Version/14.0\<close> and
  \<^verbatim>\<open>Safari\<close> but no \<^verbatim>\<open>Chrome\<close>, gives both false; the empty string gives both false. In
  the variant with the field, \<open>combined\<close> is false in all four.
\<close>

theorem C6_scenarios:
  "detectWebView (JStr (js ''Mozilla/5.0 (Linux; Android 10) AppleWebKit/537.36 (KHTML, like Gecko) Version/4.0 Chrome/66.0.3359.126 Mobile Safari/537.36 wv''))
     = \<lparr>ios = False, android = True, combined = False\<rparr>
   \<and> detectWebView (JStr (js ''Mozilla/5.0 (iPhone; CPU iPhone OS 14_0 like Mac OS X) AppleWebKit/605.1.15 (KHTML, like Gecko) Mobile/15E148''))
     = \<lparr>ios = True, android = False, combined = False\<rparr>
   \<and> detectWebView (JStr (js ''Mozilla/5.0 (iPhone; CPU iPhone OS 14_0 like Mac OS X) AppleWebKit/605.1.15 (KHTML, like Gecko) Version/14.0 Mobile/15E148 Safari/604.1''))
     = \<lparr>ios = False, android = False, combined = False\<rparr>
   \<and> detectWebView (JStr (js ''''))
     = \<lparr>ios = False, android = False, combined = False\<rparr>
   \<and> detectWebView_plain (JStr (js ''Mozilla/5.0 (Linux; Android 10) AppleWebKit/537.36 (KHTML, like Gecko) Version/4.0 Chrome/66.0.3359.126 Mobile Safari/537.36 wv''))
     = \<lparr>ios_plain = False, android_plain = True\<rparr>
   \<and> detectWebView_plain (JStr (js ''Mozilla/5.0 (iPhone; CPU iPhone OS 14_0 like Mac OS X) AppleWebKit/605.1.15 (KHTML, like Gecko) Mobile/15E148''))
     = \<lparr>ios_plain = True, android_plain = False\<rparr>
   \<and> detectWebView_plain (JStr (js ''Mozilla/5.0 (iPhone; CPU iPhone OS 14_0 like Mac OS X) AppleWebKit/605.1.15 (KHTML, like Gecko) Version/14.0 Mobile/15E148 Safari/604.1''))
     = \<lparr>ios_plain = False, android_plain = False\<rparr>
   \<and> detectWebView_plain (JStr (js ''''))
     = \<lparr>ios_plain = False, android_plain = False\<rparr>"
proof -
  have a1: "detectWebView (JStr (js ''Mozilla/5.0 (Linux; Android 10) AppleWebKit/537.36 (KHTML, like Gecko) Version/4.0 Chrome/66.0.3359.126 Mobile Safari/537.36 wv''))
     = \<lparr>ios = False, android = True, combined = False\<rparr>"
    by code_simp
  have a2: "detectWebView (JStr (js ''Mozilla/5.0 (iPhone; CPU iPhone OS 14_0 like Mac OS X) AppleWebKit/605.1.15 (KHTML, like Gecko) Mobile/15E148''))
     = \<lparr>ios = True, android = False, combined = False\<rparr>"
    by code_simp
  have a3: "detectWebView (JStr (js ''Mozilla/5.0 (iPhone; CPU iPhone OS 14_0 like Mac OS X) AppleWebKit/605.1.15 (KHTML, like Gecko) Version/14.0 Mobile/15E148 Safari/604.1''))
     = \<lparr>ios = False, android = False, combined = False\<rparr>"
    by code_simp
  have a4: "detectWebView (JStr (js '''')) = \<lparr>ios = False, android = False, combined = False\<rparr>"
    by code_simp
  have b1: "detectWebView_plain (JStr (js ''Mozilla/5.0 (Linux; Android 10) AppleWebKit/537.36 (KHTML, like Gecko) Version/4.0 Chrome/66.0.3359.126 Mobile Safari/537.36 wv''))
     = \<lparr>ios_plain = False, android_plain = True\<rparr>"
    by code_simp
  have b2: "detectWebView_plain (JStr (js ''Mozilla/5.0 (iPhone; CPU iPhone OS 14_0 like Mac OS X) AppleWebKit/605.1.15 (KHTML, like Gecko) Mobile/15E148''))
     = \<lparr>ios_plain = True, android_plain = False\<rparr>"
    by code_simp
  have b3: "detectWebView_plain (JStr (js ''Mozilla/5.0 (iPhone; CPU iPhone OS 14_0 like Mac OS X) AppleWebKit/605.1.15 (KHTML, like Gecko) Version/14.0 Mobile/15E148 Safari/604.1''))
     = \<lparr>ios_plain = False, android_plain = False\<rparr>"
    by code_simp
  have b4: "detectWebView_plain (JStr (js '''')) = \<lparr>ios_plain = False, android_plain = False\<rparr>"
    by code_simp
  from a1 a2 a3 a4 b1 b2 b3 b4 show ?thesis by (intro conjI)
qed

text \<open>
  Dropping \<open>combined\<close> commutes with every step of the hook: the detection, the effect, one
  render, the run of the effects, and so the whole sequence of renders.
\<close>

lemma forget_combined_detectWebView: "forget_combined (detectWebView ua) = detectWebView_plain ua"
  by (simp add: forget_combined_def detectWebView_def detectWebView_plain_def
      isAndroidWebView_def isAndroidWebView_plain_def isIOSWebView_def isIOSWebView_plain_def)

lemma forget_combined_mountEffect: "map_sum id forget_combined (mountEffect env) = mountEffect_plain env"
  by (cases env) (simp_all add: mountEffect_def mountEffect_plain_def forget_combined_detectWebView)

lemma forget_combined_useMobileAgent:
  "map_prod forget_combined forget_combined_state (useMobileAgent prev)
     = useMobileAgent_plain (map_option forget_combined_state prev)"
  by (cases prev)
    (simp_all add: useMobileAgent_def useMobileAgent_plain_def forget_combined_state_def
      forget_combined_def)

lemma forget_combined_runEffects:
  "map_sum id forget_combined_state (runEffects mountEffect env h)
     = runEffects mountEffect_plain env (forget_combined_state h)"
proof (cases "effectPending h")
  case False
  then show ?thesis by (simp add: runEffects_def forget_combined_state_def)
next
  case True
  show ?thesis
  proof (cases "mountEffect env")
    case (Inl e)
    with forget_combined_mountEffect [of env] have "mountEffect_plain env = Inl e" by simp
    with Inl True show ?thesis by (simp add: runEffects_def forget_combined_state_def)
  next
    case (Inr st)
    with forget_combined_mountEffect [of env] have "mountEffect_plain env = Inr (forget_combined st)"
      by simp
    with Inr True show ?thesis by (simp add: runEffects_def forget_combined_state_def)
  qed
qed

lemma forget_combined_render:
  "map_sum id (map_prod forget_combined forget_combined_state) (render useMobileAgent mountEffect env n)
     = render useMobileAgent_plain mountEffect_plain env n"
proof (induction n)
  case 0
  show ?case using forget_combined_useMobileAgent [of None] by simp
next
  case (Suc n)
  show ?case
  proof (cases "render useMobileAgent mountEffect env n")
    case (Inl e)
    with Suc.IH have "render useMobileAgent_plain mountEffect_plain env n = Inl e" by simp
    with Inl show ?thesis by simp
  next
    case (Inr rh)
    obtain r h where rh: "rh = (r, h)" by (cases rh)
    with Inr Suc.IH have p: "render useMobileAgent_plain mountEffect_plain env n
        = Inr (forget_combined r, forget_combined_state h)" by simp
    show ?thesis
    proof (cases "runEffects mountEffect env h")
      case (Inl e)
      with forget_combined_runEffects [of env h]
      have "runEffects mountEffect_plain env (forget_combined_state h) = Inl e" by simp
      with Inl Inr rh p show ?thesis by simp
    next
      case (Inr h')
      with forget_combined_runEffects [of env h]
      have "runEffects mountEffect_plain env (forget_combined_state h) = Inr (forget_combined_state h')"
        by simp
      with Inr \<open>render useMobileAgent mountEffect env n = Inr rh\<close> rh p
        forget_combined_useMobileAgent [of "Some h'"]
      show ?thesis by simp
    qed
  qed
qed

text \<open>
  C7. The two variants compute the same \<open>ios\<close> and \<open>android\<close> flags for every input, and
  differ only by the derived field: the effect and every render of the second variant are
  those of the first with \<open>combined\<close> dropped, errors included.
\<close>

theorem C7_variants_agree:
  "ios (detectWebView ua) = ios_plain (detectWebView_plain ua)
   \<and> android (detectWebView ua) = android_plain (detectWebView_plain ua)
   \<and> map_sum id forget_combined (mountEffect env) = mountEffect_plain env
   \<and> map_sum id (map_prod forget_combined forget_combined_state)
        (render useMobileAgent mountEffect env n)
      = render useMobileAgent_plain mountEffect_plain env n"
proof -
  have "forget_combined (detectWebView ua) = detectWebView_plain ua"
    by (rule forget_combined_detectWebView)
  then have "ios (detectWebView ua) = ios_plain (detectWebView_plain ua)"
    and "android (detectWebView ua) = android_plain (detectWebView_plain ua)"
    by (auto simp: forget_combined_def dest: arg_cong [where f = ios_plain] arg_cong [where f = android_plain])
  then show ?thesis
    using forget_combined_mountEffect [of env] forget_combined_render [of env n] by blast
qed

text \<open>
  The match that returns an end index succeeds exactly when the boolean match does, so
  the loop of RegExpBuiltinExec from index 0 finds a match exactly when the search does.
\<close>

lemma match_end_iff: "match_end p s \<noteq> None \<longleftrightarrow> match_here p s"
  by (induction p s rule: match_here.induct) (auto split: option.splits)

lemma exec_at_iff: "exec_at p False s i \<noteq> None \<longleftrightarrow> regexp_search p s"
proof (induction s arbitrary: i)
  case Nil
  then show ?case using match_end_iff [of p "[]"] by auto
next
  case (Cons c cs)
  show ?case
  proof (cases "match_end p (c # cs)")
    case None
    with match_end_iff [of p "c # cs"] have "\<not> match_here p (c # cs)" by simp
    with None Cons.IH [of "Suc i"] show ?thesis by simp
  next
    case (Some k)
    with match_end_iff [of p "c # cs"] have "match_here p (c # cs)" by simp
    with Some show ?thesis by simp
  qed
qed

text \<open>
  On an object without \<^verbatim>\<open>g\<close> and \<^verbatim>\<open>y\<close>, \<^verbatim>\<open>test\<close> is the search of the converted argument
  and returns the object as it was, whatever its \<^verbatim>\<open>lastIndex\<close>.
\<close>

lemma RegExp_test_flagless:
  assumes "\<not> global R" and "\<not> sticky R"
  shows "RegExp_test R v = (regexp_test (source R) v, R)"
proof (cases "exec_at (source R) False (ToString v) 0")
  case None
  with exec_at_iff [of "source R" "ToString v" 0] have "\<not> regexp_search (source R) (ToString v)"
    by simp
  with None assms show ?thesis by (simp add: RegExp_test_def regexp_test_def)
next
  case (Some e)
  with exec_at_iff [of "source R" "ToString v" 0] have "regexp_search (source R) (ToString v)"
    by simp
  with Some assms show ?thesis by (simp add: RegExp_test_def regexp_test_def)
qed

lemma RegExp_test_literal:
  "RegExp_test ((RegExp_literal p)\<lparr>lastIndex := k\<rparr>) v
     = (regexp_test p v, (RegExp_literal p)\<lparr>lastIndex := k\<rparr>)"
  using RegExp_test_flagless [of "(RegExp_literal p)\<lparr>lastIndex := k\<rparr>" v]
  by (simp add: RegExp_literal_def)

lemma RegExp_test_fresh: "RegExp_test (RegExp_literal p) v = (regexp_test p v, RegExp_literal p)"
  using RegExp_test_flagless [of "RegExp_literal p" v] by (simp add: RegExp_literal_def)

text \<open>
  With the \<^verbatim>\<open>g\<close> flag, which no literal of the source carries, two calls on the same
  object and the same string differ: the first leaves \<^verbatim>\<open>lastIndex\<close> at 2 and the second
  starts there and fails.
\<close>

lemma RegExp_global_keeps_state:
  "RegExp_test ((RegExp_literal re_wv)\<lparr>global := True\<rparr>) (JStr (js ''wv''))
     = (True, (RegExp_literal re_wv)\<lparr>global := True, lastIndex := 2\<rparr>)
   \<and> RegExp_test ((RegExp_literal re_wv)\<lparr>global := True, lastIndex := 2\<rparr>) (JStr (js ''wv''))
     = (False, (RegExp_literal re_wv)\<lparr>global := True, lastIndex := 0\<rparr>)"
proof -
  have "RegExp_test ((RegExp_literal re_wv)\<lparr>global := True\<rparr>) (JStr (js ''wv''))
     = (True, (RegExp_literal re_wv)\<lparr>global := True, lastIndex := 2\<rparr>)"
    by code_simp
  moreover have "RegExp_test ((RegExp_literal re_wv)\<lparr>global := True, lastIndex := 2\<rparr>) (JStr (js ''wv''))
     = (False, (RegExp_literal re_wv)\<lparr>global := True, lastIndex := 0\<rparr>)"
    by code_simp
  ultimately show ?thesis by (intro conjI)
qed

text \<open>
  The effect body with explicit objects computes the flags of the detection, and every
  object it created is left as its literal created it.
\<close>

lemma isAndroidWebView_exec_eq:
  "isAndroidWebView_exec ua =
     (isAndroidWebView ua,
      if regexp_test re_wv ua then [RegExp_literal re_wv]
      else [RegExp_literal re_wv, RegExp_literal re_Version_Chrome])"
  by (simp add: isAndroidWebView_exec_def isAndroidWebView_def RegExp_test_fresh)

lemma isIOSWebView_exec_eq:
  "isIOSWebView_exec ua =
     (isIOSWebView ua,
      if regexp_test re_AppleWebKit ua then [RegExp_literal re_AppleWebKit, RegExp_literal re_Safari]
      else [RegExp_literal re_AppleWebKit])"
  by (simp add: isIOSWebView_exec_def isIOSWebView_def RegExp_test_fresh)

lemma detectWebView_exec_status: "fst (detectWebView_exec ua) = detectWebView ua"
  by (simp add: detectWebView_exec_def isAndroidWebView_exec_eq isIOSWebView_exec_eq detectWebView_def)

lemma detectWebView_exec_objects:
  "list_all (\<lambda>R. R = RegExp_literal (source R)) (snd (detectWebView_exec ua))"
  by (simp add: detectWebView_exec_def isAndroidWebView_exec_eq isIOSWebView_exec_eq RegExp_literal_def)

text \<open>
  C8. The detection is a pure function of the user-agent string. Two runs of the effect in
  environments that give the same string set the same status, which is the detection on
  that string, whatever the two instances held before. The run with its
  regular-expression objects made explicit returns that same status and leaves every
  object it created as the literal created it, so it writes no state; and on such an
  object \<^verbatim>\<open>test\<close> gives the same answer whatever \<^verbatim>\<open>lastIndex\<close> holds and leaves it as it
  was, so no state kept between calls reaches the result.
\<close>

theorem C8_deterministic:
  assumes "ToString (js_or (userAgent n1) (vendor n1)) = ToString (js_or (userAgent n2) (vendor n2))"
    and "effectPending h1" and "effectPending h2"
  shows "mountEffect (Some n1) = mountEffect (Some n2)
         \<and> mountEffect (Some n1) = Inr (detectWebView (JStr (ToString (js_or (userAgent n1) (vendor n1)))))
         \<and> map_sum id isWebView (runEffects mountEffect (Some n1) h1)
           = map_sum id isWebView (runEffects mountEffect (Some n2) h2)
         \<and> mountEffect (Some n1) = Inr (fst (detectWebView_exec (js_or (userAgent n1) (vendor n1))))
         \<and> list_all (\<lambda>R. R = RegExp_literal (source R))
             (snd (detectWebView_exec (js_or (userAgent n1) (vendor n1))))
         \<and> RegExp_test ((RegExp_literal p)\<lparr>lastIndex := k\<rparr>) v
           = (regexp_test p v, (RegExp_literal p)\<lparr>lastIndex := k\<rparr>)"
proof -
  have e: "mountEffect (Some n) = Inr (detectWebView (JStr (ToString (js_or (userAgent n) (vendor n)))))" for n
    using detectWebView_ToString [of "js_or (userAgent n) (vendor n)"] by (simp add: mountEffect_def)
  with assms(1) have s: "mountEffect (Some n1) = mountEffect (Some n2)" by simp
  have r: "map_sum id isWebView (runEffects mountEffect (Some n1) h1)
      = map_sum id isWebView (runEffects mountEffect (Some n2) h2)"
    using assms e [of n1] e [of n2] by (simp add: runEffects_def)
  have x: "mountEffect (Some n1) = Inr (fst (detectWebView_exec (js_or (userAgent n1) (vendor n1))))"
    by (simp add: mountEffect_def detectWebView_exec_status)
  have o: "list_all (\<lambda>R. R = RegExp_literal (source R))
      (snd (detectWebView_exec (js_or (userAgent n1) (vendor n1))))"
    by (rule detectWebView_exec_objects)
  have t: "RegExp_test ((RegExp_literal p)\<lparr>lastIndex := k\<rparr>) v
      = (regexp_test p v, (RegExp_literal p)\<lparr>lastIndex := k\<rparr>)"
    by (rule RegExp_test_literal)
  from s e [of n1] r x o t show ?thesis by (intro conjI)
qed

text \<open>
  An instance: one environment gives \<^verbatim>\<open>wv\<close> through \<^verbatim>\<open>vendor\<close>, the other through
  \<^verbatim>\<open>userAgent\<close>, the two instances start from different states, and an object of \<^verbatim>\<open>/wv/\<close>
  whose \<^verbatim>\<open>lastIndex\<close> is 2 still answers true on \<^verbatim>\<open>wv\<close> and keeps its 2, where the object
  with the \<^verbatim>\<open>g\<close> flag above answers false.
\<close>

theorem C8_deterministic_witness:
  "mountEffect (Some \<lparr>userAgent = JStr [], vendor = JStr (js ''wv'')\<rparr>)
     = mountEffect (Some \<lparr>userAgent = JStr (js ''wv''), vendor = Undefined\<rparr>)
   \<and> map_sum id isWebView
        (runEffects mountEffect (Some \<lparr>userAgent = JStr [], vendor = JStr (js ''wv'')\<rparr>)
           \<lparr>isWebView = \<lparr>ios = False, android = False, combined = False\<rparr>, effectPending = True\<rparr>)
     = map_sum id isWebView
        (runEffects mountEffect (Some \<lparr>userAgent = JStr (js ''wv''), vendor = Undefined\<rparr>)
           \<lparr>isWebView = \<lparr>ios = True, android = True, combined = True\<rparr>, effectPending = True\<rparr>)
   \<and> fst (detectWebView_exec (JStr (js ''wv''))) = \<lparr>ios = False, android = True, combined = False\<rparr>
   \<and> snd (detectWebView_exec (JStr (js ''wv''))) = [RegExp_literal re_wv, RegExp_literal re_AppleWebKit]
   \<and> RegExp_test ((RegExp_literal re_wv)\<lparr>lastIndex := 2\<rparr>) (JStr (js ''wv''))
     = (True, (RegExp_literal re_wv)\<lparr>lastIndex := 2\<rparr>)"
proof -
  let ?n1 = "\<lparr>userAgent = JStr [], vendor = JStr (js ''wv'')\<rparr>"
  let ?n2 = "\<lparr>userAgent = JStr (js ''wv''), vendor = Undefined\<rparr>"
  let ?h1 = "\<lparr>isWebView = \<lparr>ios = False, android = False, combined = False\<rparr>, effectPending = True\<rparr>"
  let ?h2 = "\<lparr>isWebView = \<lparr>ios = True, android = True, combined = True\<rparr>, effectPending = True\<rparr>"
  have u1: "js_or (userAgent ?n1) (vendor ?n1) = JStr (js ''wv'')"
    by (simp add: js_or_def)
  have u2: "js_or (userAgent ?n2) (vendor ?n2) = JStr (js ''wv'')"
    by (simp add: js_or_def js_def)
  have d: "detectWebView (JStr (js ''wv'')) = \<lparr>ios = False, android = True, combined = False\<rparr>"
    by code_simp
  have w: "regexp_test re_wv (JStr (js ''wv''))"
    by code_simp
  have a: "\<not> regexp_test re_AppleWebKit (JStr (js ''wv''))"
    by code_simp
  from w a have l: "snd (detectWebView_exec (JStr (js ''wv''))) = [RegExp_literal re_wv, RegExp_literal re_AppleWebKit]"
    by (simp add: detectWebView_exec_def isAndroidWebView_exec_eq isIOSWebView_exec_eq)
  have c: "mountEffect (Some ?n1) = mountEffect (Some ?n2)
         \<and> mountEffect (Some ?n1) = Inr (detectWebView (JStr (ToString (js_or (userAgent ?n1) (vendor ?n1)))))
         \<and> map_sum id isWebView (runEffects mountEffect (Some ?n1) ?h1)
           = map_sum id isWebView (runEffects mountEffect (Some ?n2) ?h2)
         \<and> mountEffect (Some ?n1) = Inr (fst (detectWebView_exec (js_or (userAgent ?n1) (vendor ?n1))))
         \<and> list_all (\<lambda>R. R = RegExp_literal (source R))
             (snd (detectWebView_exec (js_or (userAgent ?n1) (vendor ?n1))))
         \<and> RegExp_test ((RegExp_literal re_wv)\<lparr>lastIndex := 2\<rparr>) (JStr (js ''wv''))
           = (regexp_test re_wv (JStr (js ''wv'')), (RegExp_literal re_wv)\<lparr>lastIndex := 2\<rparr>)"
    using u1 u2 by (intro C8_deterministic [of ?n1 ?n2 ?h1 ?h2 2 re_wv "JStr (js ''wv'')"]) simp_all
  from c have c1: "mountEffect (Some ?n1) = mountEffect (Some ?n2)" by (rule conjunct1)
  from c have c3: "map_sum id isWebView (runEffects mountEffect (Some ?n1) ?h1)
           = map_sum id isWebView (runEffects mountEffect (Some ?n2) ?h2)" by blast
  from c have m: "mountEffect (Some ?n1) = Inr (detectWebView (JStr (ToString (js_or (userAgent ?n1) (vendor ?n1)))))"
    and x: "mountEffect (Some ?n1) = Inr (fst (detectWebView_exec (js_or (userAgent ?n1) (vendor ?n1))))"
    by (rule conjunct2 [THEN conjunct1], rule conjunct2 [THEN conjunct2, THEN conjunct2, THEN conjunct1])
  from m x have "fst (detectWebView_exec (js_or (userAgent ?n1) (vendor ?n1)))
      = detectWebView (JStr (ToString (js_or (userAgent ?n1) (vendor ?n1))))"
    by (simp only: sum.inject)
  with u1 d have c4: "fst (detectWebView_exec (JStr (js ''wv''))) = \<lparr>ios = False, android = True, combined = False\<rparr>"
    by (simp only: ToString.simps)
  from c w have c6: "RegExp_test ((RegExp_literal re_wv)\<lparr>lastIndex := 2\<rparr>) (JStr (js ''wv''))
     = (True, (RegExp_literal re_wv)\<lparr>lastIndex := 2\<rparr>)" by simp
  from c1 c3 c4 l c6 show ?thesis by (intro conjI)
qed

text \<open>
  C9. When \<^verbatim>\<open>navigator.userAgent\<close> is the empty string and \<^verbatim>\<open>navigator.vendor\<close> is a
  non-empty string, the detection runs on the vendor string, in both variants; so a vendor
  string containing \<^verbatim>\<open>wv\<close> gives \<open>android\<close> true.
\<close>

theorem C9_vendor_fallback:
  assumes "userAgent nav = JStr []" and "vendor nav = JStr v" and "v \<noteq> []"
  shows "mountEffect (Some nav) = Inr (detectWebView (JStr v))
         \<and> mountEffect_plain (Some nav) = Inr (detectWebView_plain (JStr v))
         \<and> (contains v (js ''wv'') \<longrightarrow>
              android (detectWebView (JStr v)) \<and> android_plain (detectWebView_plain (JStr v)))"
proof -
  from assms(1,2) have "js_or (userAgent nav) (vendor nav) = JStr v"
    by (simp add: js_or_def)
  then have "mountEffect (Some nav) = Inr (detectWebView (JStr v))"
    and "mountEffect_plain (Some nav) = Inr (detectWebView_plain (JStr v))"
    by (simp_all add: mountEffect_def mountEffect_plain_def)
  moreover have "android (detectWebView (JStr v))" "android_plain (detectWebView_plain (JStr v))"
    if "contains v (js ''wv'')"
    using that isAndroidWebView_string [of v]
    by (simp_all add: detectWebView_def detectWebView_plain_def isAndroidWebView_def
        isAndroidWebView_plain_def)
  ultimately show ?thesis by blast
qed

text \<open>
  An instance: the vendor string holds \<^verbatim>\<open>wv\<close>, so the flag is true, while the detection
  on the empty user agent would give false.
\<close>

theorem C9_vendor_fallback_witness:
  "mountEffect (Some \<lparr>userAgent = JStr [], vendor = JStr (js ''Google Inc. wv'')\<rparr>)
     = Inr (detectWebView (JStr (js ''Google Inc. wv'')))
   \<and> android (detectWebView (JStr (js ''Google Inc. wv'')))
   \<and> android_plain (detectWebView_plain (JStr (js ''Google Inc. wv'')))
   \<and> \<not> android (detectWebView (JStr []))"
proof -
  have c: "contains (js ''Google Inc. wv'') (js ''wv'')" by code_simp
  have n: "js ''Google Inc. wv'' \<noteq> []" by (simp add: js_def)
  have e: "\<not> android (detectWebView (JStr []))" by code_simp
  from c n e C9_vendor_fallback [of "\<lparr>userAgent = JStr [], vendor = JStr (js ''Google Inc. wv'')\<rparr>" "js ''Google Inc. wv''"]
  show ?thesis by simp
qed

text \<open>
  C10. The first render of an instance returns the all-false status in every environment,
  in both variants; every later render, after the effect has run, returns the detected
  status.
\<close>

theorem C10_first_render_all_false:
  "map_sum id fst (render useMobileAgent mountEffect env 0)
     = Inr \<lparr>ios = False, android = False, combined = False\<rparr>
   \<and> map_sum id fst (render useMobileAgent_plain mountEffect_plain env 0)
     = Inr \<lparr>ios_plain = False, android_plain = False\<rparr>
   \<and> map_sum id fst (render useMobileAgent mountEffect (Some nav) (Suc n))
     = Inr (detectWebView (js_or (userAgent nav) (vendor nav)))
   \<and> map_sum id fst (render useMobileAgent_plain mountEffect_plain (Some nav) (Suc n))
     = Inr (detectWebView_plain (js_or (userAgent nav) (vendor nav)))"
proof -
  have "map_sum id fst (render useMobileAgent mountEffect env 0)
     = Inr \<lparr>ios = False, android = False, combined = False\<rparr>"
    by (simp add: useMobileAgent_def)
  moreover have "map_sum id fst (render useMobileAgent_plain mountEffect_plain env 0)
     = Inr \<lparr>ios_plain = False, android_plain = False\<rparr>"
    by (simp add: useMobileAgent_plain_def)
  moreover have "map_sum id fst (render useMobileAgent mountEffect (Some nav) (Suc n))
     = Inr (detectWebView (js_or (userAgent nav) (vendor nav)))"
    by (simp add: render_useMobileAgent_Suc del: render.simps)
  moreover have "map_sum id fst (render useMobileAgent_plain mountEffect_plain (Some nav) (Suc n))
     = Inr (detectWebView_plain (js_or (userAgent nav) (vendor nav)))"
    by (simp add: render_useMobileAgent_plain_Suc del: render.simps)
  ultimately show ?thesis by (intro conjI)
qed

text \<open>
  An instance: in an Android WebView the first render returns all false and the second
  one has \<open>android\<close> true.
\<close>

theorem C10_first_render_all_false_witness:
  "map_sum id fst (render useMobileAgent mountEffect
      (Some \<lparr>userAgent = JStr (js ''Android 10; wv''), vendor = Undefined\<rparr>) 0)
     = Inr \<lparr>ios = False, android = False, combined = False\<rparr>
   \<and> map_sum id fst (render useMobileAgent mountEffect
      (Some \<lparr>userAgent = JStr (js ''Android 10; wv''), vendor = Undefined\<rparr>) 1)
     = Inr \<lparr>ios = False, android = True, combined = False\<rparr>"
proof -
  have u: "js_or (JStr (js ''Android 10; wv'')) Undefined = JStr (js ''Android 10; wv'')"
    by (simp add: js_or_def js_def)
  have d: "detectWebView (JStr (js ''Android 10; wv'')) = \<lparr>ios = False, android = True, combined = False\<rparr>"
    by code_simp
  from u d C10_first_render_all_false
    [of "Some \<lparr>userAgent = JStr (js ''Android 10; wv''), vendor = Undefined\<rparr>"
      "\<lparr>userAgent = JStr (js ''Android 10; wv''), vendor = Undefined\<rparr>" 0]
  show ?thesis by simp
qed

end
